theory Spec2Isabelle
  imports Main "HOL-Library.Sublist"
begin

section \<open>Python strings\<close>

text \<open>
  A Python \<open>str\<close> is a sequence of Unicode code points, so \<open>len\<close>, slicing,
  \<open>split\<close> and \<open>strip\<close> all work on code points. The model keeps that: a
  string is a list of code points, and an ASCII literal is lifted with \<open>cp\<close>.
\<close>

type_synonym pystr = "nat list"

definition cp :: "string \<Rightarrow> pystr" where
  "cp s = map of_char s"

text \<open>\<open>str.isspace\<close> on one code point (the whitespace set of CPython).\<close>

definition py_isspace :: "nat \<Rightarrow> bool" where
  "py_isspace c \<longleftrightarrow>
     (9 \<le> c \<and> c \<le> 13) \<or> (28 \<le> c \<and> c \<le> 32) \<or> c = 133 \<or> c = 160 \<or> c = 5760 \<or>
     (8192 \<le> c \<and> c \<le> 8202) \<or> c = 8232 \<or> c = 8233 \<or> c = 8239 \<or> c = 8287 \<or>
     c = 12288"

text \<open>\<open>s.strip()\<close> and \<open>s.strip('.')\<close>: drop the characters from both ends.\<close>

definition strip_where :: "(nat \<Rightarrow> bool) \<Rightarrow> pystr \<Rightarrow> pystr" where
  "strip_where P s = rev (dropWhile P (rev (dropWhile P s)))"

definition py_strip :: "pystr \<Rightarrow> pystr" where
  "py_strip s = strip_where py_isspace s"

definition strip_dots :: "pystr \<Rightarrow> pystr" where
  "strip_dots s = strip_where (\<lambda>c. c = 46) s"

text \<open>
  \<open>s.split()\<close>: the maximal runs of non-whitespace characters, left to right.
  \<open>cur\<close> is the word being read.
\<close>

fun split_scan :: "pystr \<Rightarrow> pystr \<Rightarrow> pystr list" where
  "split_scan cur [] = (if cur = [] then [] else [cur])"
| "split_scan cur (c # cs) =
     (if py_isspace c
      then (if cur = [] then split_scan [] cs else cur # split_scan [] cs)
      else split_scan (cur @ [c]) cs)"

definition py_split :: "pystr \<Rightarrow> pystr list" where
  "py_split s = split_scan [] s"

text \<open>\<open>sep.join(xs)\<close>.\<close>

fun py_join :: "pystr \<Rightarrow> pystr list \<Rightarrow> pystr" where
  "py_join sep [] = []"
| "py_join sep [x] = x"
| "py_join sep (x # y # ys) = x @ sep @ py_join sep (y # ys)"

text \<open>
  \<open>re.split(r'\. (?=[A-Z])', s)\<close>: every occurrence of a period and a space that is
  followed by an ASCII capital is a cut; the two characters are consumed, the capital
  is not, and the search goes on at the capital. \<open>push_piece c ps\<close> puts \<open>c\<close> in
  front of the first piece.
\<close>

fun push_piece :: "nat \<Rightarrow> pystr list \<Rightarrow> pystr list" where
  "push_piece c [] = [[c]]"
| "push_piece c (p # ps) = (c # p) # ps"

fun re_split_sentences :: "pystr \<Rightarrow> pystr list" where
  "re_split_sentences (c # s # u # rest) =
     (if c = 46 \<and> s = 32 \<and> 65 \<le> u \<and> u \<le> 90
      then [] # re_split_sentences (u # rest)
      else push_piece c (re_split_sentences (s # u # rest)))"
| "re_split_sentences (c # cs) = push_piece c (re_split_sentences cs)"
| "re_split_sentences [] = [[]]"

section \<open>The reformatting stage of \<open>summarize_text\<close>\<close>

text \<open>
  \<open>current_heading\<close> followed by a colon and a newline; the first character of the heading is U+1F539.
\<close>

definition heading_line :: pystr where
  "heading_line = [128313] @ cp '' Key Points:'' @ [10]"

text \<open>The string one iteration appends: U+2022, a space, the line without outer periods, a period, a newline.\<close>

definition bullet_line :: "pystr \<Rightarrow> pystr" where
  "bullet_line line = [8226, 32] @ strip_dots line @ [46, 10]"

text \<open>The body of the \<open>for line in sections\<close> loop, on the accumulated \<open>bullet_summary\<close>.\<close>

definition format_step :: "pystr \<Rightarrow> pystr \<Rightarrow> pystr" where
  "format_step bullet_summary line0 =
     (let line = py_strip line0 in
      if line = [] then bullet_summary
      else if 7 < length (py_split line) then bullet_summary @ bullet_line line
      else bullet_summary)"

text \<open>Lines 82 to 93: split into sections, start from the heading, run the loop.\<close>

definition format_summary :: "pystr \<Rightarrow> pystr" where
  "format_summary full_summary =
     foldl format_step heading_line (re_split_sentences full_summary)"

section \<open>Exceptions, the world, the collaborators\<close>

text \<open>
  Every \<open>raise\<close> is a value: a function that can raise returns \<open>exn + 'a\<close>, with
  \<open>Inl\<close> the exception. \<open>LibraryError n\<close> stands for an exception (a subclass of
  \<open>Exception\<close>) raised inside one of the libraries the program calls.
\<close>

datatype exn =
    ValueError pystr
  | KeyError pystr
  | TypeError
  | IndexError
  | FileNotFoundError pystr
  | UnicodeEncodeError
  | LibraryError nat

text \<open>The three fields of the result of \<open>urlparse\<close> that the program reads.\<close>

record parse_result =
  netloc :: pystr
  path :: pystr
  query :: pystr

text \<open>
  One entry of the list the transcript service returns is a dictionary; the program reads
  its \<open>"text"\<close> key only. The other values (timings) are floats.
\<close>

datatype pyval = Str pystr | FloatVal

type_synonym segment = "pystr \<rightharpoonup> pyval"

text \<open>What the program calls outside itself, in the order it does.\<close>

datatype call =
    ApiGetTranscript pystr
  | YdlDownload pystr
  | WhisperTranscribe pystr
  | Summarizer "pystr list"

text \<open>
  The state the program acts on: the files on disk, the messages handed to the
  \<open>update_status\<close> callback (oldest first), the exceptions reported by \<open>print\<close>, and
  the calls made to the collaborators.
\<close>

record world =
  files :: "pystr set"
  status :: "pystr list"
  printed :: "exn list"
  calls :: "call list"

text \<open>
  The libraries are parameters of the model. \<open>print_error e\<close> is line 37, the
  formatting of the exception \<open>e\<close> and the \<open>print\<close> of the line: \<open>None\<close> when the
  line was written, the exception when formatting or writing raised (a console that
  cannot encode the message, a closed stream). \<open>ydl_download\<close> may create files whether
  it raises or not; \<open>whisper_transcribe\<close> loads the model and reads the file;
  \<open>load_pipeline\<close> is the construction of the pipeline object, which may raise;
  \<open>summarizer\<close> is that object applied to the list of chunks with
  \<open>do_sample=False\<close>, returning the \<open>summary_text\<close> of each result.
\<close>

record env =
  urlparse :: "pystr \<Rightarrow> exn + parse_result"
  parse_qs :: "pystr \<Rightarrow> (pystr \<rightharpoonup> pystr list)"
  api_get_transcript :: "pystr \<Rightarrow> exn + segment list"
  print_error :: "exn \<Rightarrow> exn option"
  ydl_download :: "pystr \<Rightarrow> pystr set \<Rightarrow> exn option \<times> pystr set"
  whisper_transcribe :: "pystr \<Rightarrow> pystr set \<Rightarrow> exn + pystr"
  load_pipeline :: "exn option"
  summarizer :: "pystr list \<Rightarrow> exn + pystr list"

definition update_status :: "pystr \<Rightarrow> world \<Rightarrow> world" where
  "update_status msg w = w\<lparr>status := status w @ [msg]\<rparr>"

definition log_call :: "call \<Rightarrow> world \<Rightarrow> world" where
  "log_call c w = w\<lparr>calls := calls w @ [c]\<rparr>"

section \<open>The URL parser and the remote fetcher\<close>

definition get_video_id :: "env \<Rightarrow> pystr \<Rightarrow> exn + pystr option" where
  "get_video_id E url =
     (case urlparse E url of
        Inl e \<Rightarrow> Inl e
      | Inr parsed \<Rightarrow>
          if sublist (cp ''youtu.be'') (netloc parsed) then Inr (Some (drop 1 (path parsed)))
          else if sublist (cp ''youtube.com'') (netloc parsed) then
            (case parse_qs E (query parsed) (cp ''v'') of
               None \<Rightarrow> Inr None
             | Some [] \<Rightarrow> Inl IndexError
             | Some (v # _) \<Rightarrow> Inr (Some v))
          else Inr None)"

text \<open>\<open>[x["text"] for x in transcript]\<close>: a missing key raises at the first such entry.\<close>

fun segment_texts :: "segment list \<Rightarrow> exn + pyval list" where
  "segment_texts [] = Inr []"
| "segment_texts (x # xs) =
     (case x (cp ''text'') of
        None \<Rightarrow> Inl (KeyError (cp ''text''))
      | Some v \<Rightarrow> (case segment_texts xs of Inl e \<Rightarrow> Inl e | Inr vs \<Rightarrow> Inr (v # vs)))"

text \<open>\<open>" ".join(vs)\<close> raises \<open>TypeError\<close> on an item that is not a string.\<close>

fun str_items :: "pyval list \<Rightarrow> pystr list option" where
  "str_items [] = Some []"
| "str_items (Str s # vs) = (case str_items vs of None \<Rightarrow> None | Some ss \<Rightarrow> Some (s # ss))"
| "str_items (FloatVal # vs) = None"

definition join_texts :: "segment list \<Rightarrow> exn + pystr" where
  "join_texts transcript =
     (case segment_texts transcript of
        Inl e \<Rightarrow> Inl e
      | Inr vs \<Rightarrow> (case str_items vs of None \<Rightarrow> Inl TypeError | Some ss \<Rightarrow> Inr (py_join [32] ss)))"

definition invalid_url :: exn where
  "invalid_url = ValueError (cp ''Invalid YouTube URL'')"

text \<open>
  The handler of \<open>except Exception\<close>: the \<open>print\<close> stands inside the handler with
  nothing around it, so an exception it raises leaves the function; otherwise the
  function returns \<open>None\<close>.
\<close>

definition report_unavailable :: "env \<Rightarrow> exn \<Rightarrow> world \<Rightarrow> (exn + pystr option) \<times> world" where
  "report_unavailable E e w =
     (case print_error E e of
        Some e' \<Rightarrow> (Inl e', w)
      | None \<Rightarrow> (Inr None, w\<lparr>printed := printed w @ [e]\<rparr>))"

text \<open>
  \<open>not video_id\<close> holds of \<open>None\<close> and of the empty string. The \<open>try\<close> covers the
  service call and the join.
\<close>

definition get_transcript_youtube :: "env \<Rightarrow> pystr \<Rightarrow> world \<Rightarrow> (exn + pystr option) \<times> world" where
  "get_transcript_youtube E url w =
     (case get_video_id E url of
        Inl e \<Rightarrow> (Inl e, w)
      | Inr None \<Rightarrow> (Inl invalid_url, w)
      | Inr (Some video_id) \<Rightarrow>
          if video_id = [] then (Inl invalid_url, w)
          else
            (let w1 = log_call (ApiGetTranscript video_id) w in
             case api_get_transcript E video_id of
               Inl e \<Rightarrow> report_unavailable E e w1
             | Inr transcript \<Rightarrow>
                 (case join_texts transcript of
                    Inl e \<Rightarrow> report_unavailable E e w1
                  | Inr t \<Rightarrow> (Inr (Some t), w1))))"

section \<open>The local path and the orchestrator\<close>

definition audio_mp3 :: pystr where
  "audio_mp3 = cp ''audio.mp3''"

definition download_audio :: "env \<Rightarrow> pystr \<Rightarrow> world \<Rightarrow> (exn + pystr) \<times> world" where
  "download_audio E url w =
     (let w1 = log_call (YdlDownload url) w in
      case ydl_download E url (files w1) of
        (Some e, fs) \<Rightarrow> (Inl e, w1\<lparr>files := fs\<rparr>)
      | (None, fs) \<Rightarrow> (Inr audio_mp3, w1\<lparr>files := fs\<rparr>))"

definition get_transcript_whisper :: "env \<Rightarrow> pystr \<Rightarrow> world \<Rightarrow> (exn + pystr) \<times> world" where
  "get_transcript_whisper E audio_path w =
     (let w1 = log_call (WhisperTranscribe audio_path) w in
      (whisper_transcribe E audio_path (files w1), w1))"

text \<open>\<open>os.remove\<close> raises when the file is not there.\<close>

definition os_remove :: "pystr \<Rightarrow> world \<Rightarrow> (exn + unit) \<times> world" where
  "os_remove p w =
     (if p \<in> files w then (Inr (), w\<lparr>files := files w - {p}\<rparr>)
      else (Inl (FileNotFoundError p), w))"

definition msg_youtube_ok :: pystr where
  "msg_youtube_ok = [10004, 65039] @ cp '' Transcript from YouTube API.''"

definition msg_unavailable :: pystr where
  "msg_unavailable = [9888, 65039] @ cp '' YouTube transcript unavailable. Using Whisper...''"

definition msg_whisper_ok :: pystr where
  "msg_whisper_ok = [10004, 65039] @ cp '' Transcript generated using Whisper.''"

text \<open>Lines 66 to 71 of \<open>get_transcript\<close>: no statement of the function catches an exception.\<close>

definition local_fallback :: "env \<Rightarrow> pystr \<Rightarrow> world \<Rightarrow> (exn + pystr) \<times> world" where
  "local_fallback E url w =
     (let w1 = update_status msg_unavailable w in
      case download_audio E url w1 of
        (Inl e, w2) \<Rightarrow> (Inl e, w2)
      | (Inr audio_path, w2) \<Rightarrow>
          (case get_transcript_whisper E audio_path w2 of
             (Inl e, w3) \<Rightarrow> (Inl e, w3)
           | (Inr transcript, w3) \<Rightarrow>
               (case os_remove audio_path w3 of
                  (Inl e, w4) \<Rightarrow> (Inl e, w4)
                | (Inr _, w4) \<Rightarrow> (Inr transcript, update_status msg_whisper_ok w4))))"

text \<open>\<open>if transcript:\<close> is false of \<open>None\<close> and of the empty string.\<close>

definition get_transcript :: "env \<Rightarrow> pystr \<Rightarrow> world \<Rightarrow> (exn + pystr) \<times> world" where
  "get_transcript E url w =
     (case get_transcript_youtube E url w of
        (Inl e, w1) \<Rightarrow> (Inl e, w1)
      | (Inr None, w1) \<Rightarrow> local_fallback E url w1
      | (Inr (Some transcript), w1) \<Rightarrow>
          if transcript = [] then local_fallback E url w1
          else (Inr transcript, update_status msg_youtube_ok w1))"

section \<open>The summarizer\<close>

text \<open>\<open>range(0, stop, step)\<close>: empty for a negative step; a zero step is handled by the caller.\<close>

definition py_range0 :: "nat \<Rightarrow> int \<Rightarrow> nat list" where
  "py_range0 stop step =
     (if 0 < step then map (\<lambda>j. j * nat step) [0 ..< (stop + nat step - 1) div nat step]
      else [])"

text \<open>\<open>[text[i:i+max_chunk] for i in range(0, len(text), max_chunk)]\<close>.\<close>

definition chunks_of :: "pystr \<Rightarrow> int \<Rightarrow> exn + pystr list" where
  "chunks_of text max_chunk =
     (if max_chunk = 0 then Inl (ValueError (cp ''range() arg 3 must not be zero''))
      else Inr (map (\<lambda>i. take (nat max_chunk) (drop i text)) (py_range0 (length text) max_chunk)))"

definition msg_summarizing :: pystr where
  "msg_summarizing = [129504] @ cp '' Summarizing with Hugging Face model...''"

definition msg_formatting :: pystr where
  "msg_formatting = [128218] @ cp '' Formatting summary...''"

definition msg_complete :: pystr where
  "msg_complete = [10004, 65039] @ cp '' Summary complete.''"

definition summarize_text :: "env \<Rightarrow> pystr \<Rightarrow> int \<Rightarrow> world \<Rightarrow> (exn + pystr) \<times> world" where
  "summarize_text E text max_chunk w =
     (let w1 = update_status msg_summarizing w in
      case load_pipeline E of
        Some e \<Rightarrow> (Inl e, w1)
      | None \<Rightarrow>
          (case chunks_of text max_chunk of
             Inl e \<Rightarrow> (Inl e, w1)
           | Inr chunks \<Rightarrow>
               (let w2 = log_call (Summarizer chunks) w1 in
                case summarizer E chunks of
                  Inl e \<Rightarrow> (Inl e, w2)
                | Inr summaries \<Rightarrow>
                    (let full_summary = py_join [32] summaries;
                         w3 = update_status msg_formatting w2;
                         bullet_summary = format_summary full_summary;
                         w4 = update_status msg_complete w3
                     in (Inr bullet_summary, w4)))))"

section \<open>Notions used to state the properties\<close>

text \<open>
  The description of the reformatting stage, to be compared with \<open>format_summary\<close>:
  the candidate lines are the trimmed sections, and a line survives when it is not empty
  and has more than seven words.
\<close>

definition surviving_lines :: "pystr \<Rightarrow> pystr list" where
  "surviving_lines full_summary =
     filter (\<lambda>l. l \<noteq> [] \<and> 7 < length (py_split l)) (map py_strip (re_split_sentences full_summary))"

text \<open>
  The lines of a string: the pieces between its newline characters (a string that ends
  with a newline has an empty last piece).
\<close>

fun lines_nl :: "pystr \<Rightarrow> pystr list" where
  "lines_nl [] = [[]]"
| "lines_nl (c # cs) = (if c = 10 then [] # lines_nl cs else push_piece c (lines_nl cs))"

text \<open>
  A host is on a domain when, letter case apart, it is that domain or ends with a period
  followed by it (a subdomain). This is the reading of the short-domain and long-domain
  URL shapes that does not depend on the program. The domain is given in lower case.
\<close>

definition ascii_lower :: "nat \<Rightarrow> nat" where
  "ascii_lower c = (if 65 \<le> c \<and> c \<le> 90 then c + 32 else c)"

definition on_domain :: "pystr \<Rightarrow> pystr \<Rightarrow> bool" where
  "on_domain d host \<longleftrightarrow>
     map ascii_lower host = d \<or> suffix (46 # d) (map ascii_lower host)"

text \<open>
  The number of words \<open>split_scan\<close> yields, knowing only whether a word is being read.
\<close>

fun wcount :: "bool \<Rightarrow> pystr \<Rightarrow> nat" where
  "wcount b [] = (if b then 1 else 0)"
| "wcount b (c # cs) =
     (if py_isspace c then (if b then 1 else 0) + wcount False cs else wcount True cs)"

section \<open>Sample collaborators\<close>

text \<open>
  A small world for evaluating the program: two videos, \<open>abc\<close> with captions and
  \<open>xyz\<close> without. The table of \<open>urlparse\<close> and \<open>parse_qs\<close> holds what the Python
  functions return on these URLs; the summarizer returns each chunk as its own summary.
\<close>

definition url_short :: pystr where
  "url_short = cp ''https://youtu.be/abc''"

definition url_long :: pystr where
  "url_long = cp ''https://www.youtube.com/watch?v=xyz&x=1''"

definition url_other :: pystr where
  "url_other = cp ''https://example.org/abc''"

text \<open>
  Three more URLs: a host that only contains the long domain's name, the short domain
  written in capitals, and a subdomain of the long domain that contains the short
  domain's name.
\<close>

definition url_foreign :: pystr where
  "url_foreign = cp ''https://notyoutube.com/watch?v=xyz&x=1''"

definition url_upper :: pystr where
  "url_upper = cp ''https://YOUTU.BE/abc''"

definition url_both :: pystr where
  "url_both = cp ''https://youtu.be.youtube.com/watch?v=xyz&x=1''"

definition sample_urlparse :: "pystr \<Rightarrow> exn + parse_result" where
  "sample_urlparse u =
     (if u = url_short then Inr \<lparr>netloc = cp ''youtu.be'', path = cp ''/abc'', query = []\<rparr>
      else if u = url_long
      then Inr \<lparr>netloc = cp ''www.youtube.com'', path = cp ''/watch'', query = cp ''v=xyz&x=1''\<rparr>
      else if u = url_other then Inr \<lparr>netloc = cp ''example.org'', path = cp ''/abc'', query = []\<rparr>
      else if u = url_foreign
      then Inr \<lparr>netloc = cp ''notyoutube.com'', path = cp ''/watch'', query = cp ''v=xyz&x=1''\<rparr>
      else if u = url_upper then Inr \<lparr>netloc = cp ''YOUTU.BE'', path = cp ''/abc'', query = []\<rparr>
      else if u = url_both
      then Inr \<lparr>netloc = cp ''youtu.be.youtube.com'', path = cp ''/watch'', query = cp ''v=xyz&x=1''\<rparr>
      else Inl (ValueError (cp ''not in the table'')))"

definition sample_parse_qs :: "pystr \<Rightarrow> (pystr \<rightharpoonup> pystr list)" where
  "sample_parse_qs q =
     (if q = cp ''v=xyz&x=1'' then [cp ''v'' \<mapsto> [cp ''xyz''], cp ''x'' \<mapsto> [cp ''1'']]
      else Map.empty)"

definition sample_segments :: "segment list" where
  "sample_segments =
     [[cp ''text'' \<mapsto> Str (cp ''Hello''), cp ''start'' \<mapsto> FloatVal],
      [cp ''text'' \<mapsto> Str (cp ''world''), cp ''start'' \<mapsto> FloatVal]]"

definition sample_env :: env where
  "sample_env =
     \<lparr>urlparse = sample_urlparse,
      parse_qs = sample_parse_qs,
      api_get_transcript = (\<lambda>vid. if vid = cp ''abc'' then Inr sample_segments else Inl (LibraryError 0)),
      print_error = (\<lambda>e. None),
      ydl_download = (\<lambda>url fs. (None, insert audio_mp3 fs)),
      whisper_transcribe = (\<lambda>p fs. if p \<in> fs then Inr (cp ''spoken words'') else Inl (FileNotFoundError p)),
      load_pipeline = None,
      summarizer = (\<lambda>chunks. Inr chunks)\<rparr>"

definition w0 :: world where
  "w0 = \<lparr>files = {}, status = [], printed = [], calls = []\<rparr>"

text \<open>The same world, with a transcriber that raises on every file.\<close>

definition whisper_fails_env :: env where
  "whisper_fails_env = sample_env\<lparr>whisper_transcribe := (\<lambda>p fs. Inl (LibraryError 1))\<rparr>"

text \<open>The same world, with a transcript service that answers with no segment at all.\<close>

definition empty_captions_env :: env where
  "empty_captions_env = sample_env\<lparr>api_get_transcript := (\<lambda>vid. Inr [])\<rparr>"

text \<open>The same world, with a console that cannot encode the message of any exception.\<close>

definition print_fails_env :: env where
  "print_fails_env = sample_env\<lparr>print_error := (\<lambda>e. Some UnicodeEncodeError)\<rparr>"

section \<open>Counting words\<close>

lemma split_scan_wcount: "length (split_scan cur s) = wcount (cur \<noteq> []) s"
  by (induction s arbitrary: cur) auto

lemma py_split_wcount: "length (py_split s) = wcount False s"
  by (simp add: py_split_def split_scan_wcount)

lemma wcount_True_le: "wcount True s \<le> Suc (wcount False s)"
  by (cases s) auto

lemma wcount_any_le: "wcount b s \<le> Suc (wcount False s)"
  using wcount_True_le [of s] by (cases b) auto

lemma wcount_run_prefix:
  "\<forall>c\<in>set d. \<not> py_isspace c \<Longrightarrow> wcount b (d @ s) \<le> Suc (wcount False s)"
  by (induction d arbitrary: b) (auto simp: wcount_any_le)

lemma wcount_run_le1: "\<forall>c\<in>set d. \<not> py_isspace c \<Longrightarrow> wcount b d \<le> 1"
  by (induction d arbitrary: b) auto

lemma wcount_run_suffix:
  "\<forall>c\<in>set d. \<not> py_isspace c \<Longrightarrow> \<not> py_isspace x \<Longrightarrow> wcount b (m @ d) \<le> wcount b (m @ [x])"
proof (induction m arbitrary: b)
  case Nil
  then show ?case using wcount_run_le1 [of d b] by simp
next
  case (Cons c m)
  then show ?case by simp
qed

lemma wcount_trailing_space:
  "\<not> py_isspace x \<Longrightarrow> py_isspace y \<Longrightarrow> wcount b (m @ [x, y]) = wcount b (m @ [x])"
  by (induction m arbitrary: b) auto

lemma strip_where_decomp:
  "s = takeWhile P s @ strip_where P s @ rev (takeWhile P (rev (dropWhile P s)))"
proof -
  have "rev (dropWhile P s) = takeWhile P (rev (dropWhile P s)) @ dropWhile P (rev (dropWhile P s))"
    by simp
  then have "dropWhile P s = rev (dropWhile P (rev (dropWhile P s))) @ rev (takeWhile P (rev (dropWhile P s)))"
    by (metis rev_append rev_rev_ident)
  then show ?thesis
    by (metis strip_where_def takeWhile_dropWhile_id)
qed

lemma dot_not_space: "\<not> py_isspace 46" "py_isspace 10" "py_isspace 32" "\<not> py_isspace 8226"
  by (simp_all add: py_isspace_def)

lemma foldl_format_step:
  "foldl format_step acc secs =
     acc @ concat (map bullet_line (filter (\<lambda>l. l \<noteq> [] \<and> 7 < length (py_split l)) (map py_strip secs)))"
  by (induction secs arbitrary: acc) (auto simp: format_step_def Let_def)

lemma format_summary_eq:
  "format_summary full = heading_line @ concat (map bullet_line (surviving_lines full))"
  by (simp add: format_summary_def surviving_lines_def foldl_format_step)

section \<open>The shape of the summary\<close>

lemma lines_nl_line: "10 \<notin> set x \<Longrightarrow> lines_nl (x @ 10 # rest) = x # lines_nl rest"
  by (induction x) auto

lemma lines_nl_concat:
  "\<forall>x\<in>set xs. 10 \<notin> set x \<Longrightarrow> lines_nl (concat (map (\<lambda>x. x @ [10]) xs)) = xs @ [[]]"
  by (induction xs) (auto simp: lines_nl_line)

lemma strip_where_ends:
  "strip_where P s = [] \<or> \<not> P (hd (strip_where P s)) \<and> \<not> P (last (strip_where P s))"
proof (cases "strip_where P s = []")
  case True
  then show ?thesis by simp
next
  case False
  let ?s' = "dropWhile P s"
  let ?m = "strip_where P s"
  have m: "?m = rev (dropWhile P (rev ?s'))" by (simp add: strip_where_def)
  have ne: "dropWhile P (rev ?s') \<noteq> []" using False m by simp
  have "last ?m = hd (dropWhile P (rev ?s'))" using m ne by (simp add: last_rev)
  then have l: "\<not> P (last ?m)" using hd_dropWhile [OF ne] by simp
  have "?s' = ?m @ rev (takeWhile P (rev ?s'))"
    by (metis m rev_append rev_rev_ident takeWhile_dropWhile_id)
  then have "hd ?s' = hd ?m" using False by (metis hd_append2)
  moreover have "?s' \<noteq> []"
  proof
    assume e: "?s' = []"
    have "dropWhile P (rev ?s') = []" unfolding e by simp
    with ne show False by blast
  qed
  ultimately have "\<not> P (hd ?m)" using hd_dropWhile [of P s] by simp
  then show ?thesis using l by simp
qed

lemma strip_dots_shape:
  "\<exists>a b. l = a @ strip_dots l @ b \<and> set a \<subseteq> {46} \<and> set b \<subseteq> {46}
     \<and> (strip_dots l = [] \<or> hd (strip_dots l) \<noteq> 46 \<and> last (strip_dots l) \<noteq> 46)"
proof -
  let ?P = "\<lambda>c::nat. c = 46"
  let ?a = "takeWhile ?P l"
  let ?b = "rev (takeWhile ?P (rev (dropWhile ?P l)))"
  have "l = ?a @ strip_dots l @ ?b"
    unfolding strip_dots_def by (rule strip_where_decomp)
  moreover have "set ?a \<subseteq> {46}" by (auto dest: set_takeWhileD)
  moreover have "set ?b \<subseteq> {46}" by (auto dest: set_takeWhileD)
  moreover have "strip_dots l = [] \<or> hd (strip_dots l) \<noteq> 46 \<and> last (strip_dots l) \<noteq> 46"
    unfolding strip_dots_def using strip_where_ends [of ?P l] by simp
  ultimately show ?thesis by blast
qed

lemma words_strip_dots:
  "length (py_split line) \<le> Suc (length (py_split (strip_dots line @ [46])))"
proof -
  define d1 where "d1 = takeWhile (\<lambda>c. c = 46) line"
  define d2 where "d2 = rev (takeWhile (\<lambda>c. c = 46) (rev (dropWhile (\<lambda>c. c = 46) line)))"
  define m where "m = strip_dots line"
  have line: "line = d1 @ m @ d2"
    unfolding d1_def d2_def m_def strip_dots_def by (rule strip_where_decomp)
  have r1: "\<forall>c\<in>set d1. \<not> py_isspace c"
    unfolding d1_def using dot_not_space(1) by (auto dest: set_takeWhileD)
  have r2: "\<forall>c\<in>set d2. \<not> py_isspace c"
    unfolding d2_def using dot_not_space(1) by (auto dest: set_takeWhileD)
  have "wcount False line \<le> Suc (wcount False (m @ d2))"
    using wcount_run_prefix [OF r1, of False "m @ d2"] line by simp
  also have "\<dots> \<le> Suc (wcount False (m @ [46]))"
    using wcount_run_suffix [OF r2 dot_not_space(1), of False m] by simp
  finally show ?thesis by (simp add: py_split_wcount m_def)
qed

lemma words_strip_dots_no_leading:
  assumes "line \<noteq> []" and "hd line \<noteq> 46"
  shows "length (py_split line) \<le> length (py_split (strip_dots line @ [46]))"
proof -
  define d2 where "d2 = rev (takeWhile (\<lambda>c. c = 46) (rev (dropWhile (\<lambda>c. c = 46) line)))"
  define m where "m = strip_dots line"
  have "takeWhile (\<lambda>c. c = 46) line = []" using assms by (cases line) auto
  then have line: "line = m @ d2"
    using strip_where_decomp [of line "\<lambda>c. c = 46"] by (simp add: d2_def m_def strip_dots_def)
  have r2: "\<forall>c\<in>set d2. \<not> py_isspace c"
    unfolding d2_def using dot_not_space(1) by (auto dest: set_takeWhileD)
  have "wcount False (m @ d2) \<le> wcount False (m @ [46])"
    using wcount_run_suffix [OF r2 dot_not_space(1), of False m] by simp
  then have "wcount False line \<le> wcount False (m @ [46])" using line by simp
  then show ?thesis by (simp add: py_split_wcount m_def)
qed

lemma strip_dots_subset: "set (strip_dots l) \<subseteq> set l"
proof -
  obtain a b where "l = a @ strip_dots l @ b" using strip_dots_shape [of l] by blast
  then have "set l = set a \<union> set (strip_dots l) \<union> set b" by (metis set_append sup_assoc)
  then show ?thesis by blast
qed

lemma format_summary_literal:
  "format_summary full =
     ([128313] @ cp '' Key Points:'') @ [10] @
     concat (map (\<lambda>b. b @ [10])
       (map (\<lambda>l. [8226, 32] @ strip_dots l @ [46])
         (filter (\<lambda>l. l \<noteq> [] \<and> 7 < length (py_split l)) (map py_strip (re_split_sentences full)))))"
proof -
  have "bullet_line = (\<lambda>l. ([8226, 32] @ strip_dots l @ [46]) @ [10])"
    by (rule ext) (simp add: bullet_line_def)
  then show ?thesis
    by (simp add: format_summary_def foldl_format_step heading_line_def comp_def)
qed

lemma heading_no_newline: "10 \<notin> set ([128313] @ cp '' Key Points:'')"
  by (simp add: cp_def)

section \<open>Chunking\<close>

lemma concat_chunks_take:
  "concat (map (\<lambda>j. take k (drop (j * k) xs)) [0..<m]) = take (m * k) xs"
proof (induction m)
  case 0
  then show ?case by simp
next
  case (Suc m)
  have "take (m * k + k) xs = take (m * k) xs @ take k (drop (m * k) xs)"
    by (simp add: take_add)
  with Suc show ?case by (simp add: add.commute)
qed

lemma ceil_div_covers: "0 < k \<Longrightarrow> (n::nat) \<le> ((n + k - 1) div k) * k"
proof -
  assume k: "0 < k"
  have "(n + k - 1) mod k < k" using k by simp
  moreover have "(n + k - 1) div k * k + (n + k - 1) mod k = n + k - 1" by simp
  ultimately show ?thesis by linarith
qed

lemma ceil_div_tight: "0 < k \<Longrightarrow> j < (n + k - 1) div k \<Longrightarrow> j * k < (n::nat)"
proof -
  assume k: "0 < k" and j: "j < (n + k - 1) div k"
  have "Suc j * k \<le> (n + k - 1) div k * k" using j by (simp add: Suc_leI mult_le_mono1 del: mult_Suc)
  also have "\<dots> \<le> n + k - 1" by simp
  finally show ?thesis using k by simp
qed

lemma ceil_div_full: "0 < k \<Longrightarrow> Suc j < (n + k - 1) div k \<Longrightarrow> j * k + k \<le> (n::nat)"
  using ceil_div_tight [of k "Suc j" n] by simp

lemma chunks_of_pos:
  "0 < k \<Longrightarrow> chunks_of text (int k) =
     Inr (map (\<lambda>j. take k (drop (j * k) text)) [0 ..< (length text + k - 1) div k])"
  by (simp add: chunks_of_def py_range0_def comp_def)

lemma chunks_concat:
  assumes "0 < k" and "chunks_of text (int k) = Inr chunks"
  shows "concat chunks = text"
proof -
  have "chunks = map (\<lambda>j. take k (drop (j * k) text)) [0 ..< (length text + k - 1) div k]"
    using assms chunks_of_pos by simp
  then have "concat chunks = take ((length text + k - 1) div k * k) text"
    by (simp only: concat_chunks_take)
  then show ?thesis using ceil_div_covers [OF assms(1), of "length text"] by simp
qed

lemma chunks_sizes:
  assumes "0 < k" and "chunks_of text (int k) = Inr chunks"
  shows "\<forall>c\<in>set chunks. c \<noteq> [] \<and> length c \<le> k"
proof -
  have c: "chunks = map (\<lambda>j. take k (drop (j * k) text)) [0 ..< (length text + k - 1) div k]"
    using assms chunks_of_pos by simp
  show ?thesis
  proof
    fix x assume "x \<in> set chunks"
    then obtain j where j: "j < (length text + k - 1) div k" and x: "x = take k (drop (j * k) text)"
      using c by auto
    have "j * k < length text" using ceil_div_tight [OF assms(1) j] .
    then show "x \<noteq> [] \<and> length x \<le> k" using x assms(1) by simp
  qed
qed

lemma chunks_full:
  assumes "0 < k" and "chunks_of text (int k) = Inr chunks" and "Suc i < length chunks"
  shows "length (chunks ! i) = k"
proof -
  have c: "chunks = map (\<lambda>j. take k (drop (j * k) text)) [0 ..< (length text + k - 1) div k]"
    using assms chunks_of_pos by simp
  have i: "Suc i < (length text + k - 1) div k" using assms(3) c by simp
  have "i * k + k \<le> length text" using ceil_div_full [OF assms(1) i] .
  moreover have "chunks ! i = take k (drop (i * k) text)" using c i by simp
  ultimately show ?thesis by simp
qed

lemma chunks_short:
  assumes "0 < k" and "length text < k"
  shows "chunks_of text (int k) = Inr (if text = [] then [] else [text])"
proof (cases "text = []")
  case True
  then show ?thesis using assms by (simp add: chunks_of_pos)
next
  case False
  have pos: "0 < length text" using False by simp
  have "(length text + k - 1) div k = 1"
  proof (rule div_nat_eqI)
    show "k * 1 \<le> length text + k - 1" using pos by linarith
    show "length text + k - 1 < k * Suc 1" using assms pos by simp
  qed
  then show ?thesis using assms False by (simp add: chunks_of_pos)
qed

lemma summarize_calls:
  "load_pipeline E = None \<Longrightarrow> chunks_of text k = Inr chunks \<Longrightarrow>
   calls (snd (summarize_text E text k w)) = calls w @ [Summarizer chunks]"
  by (simp add: summarize_text_def Let_def update_status_def log_call_def split: sum.splits)

lemma summarize_result:
  "fst (summarize_text E text k w) =
     (case load_pipeline E of
        Some e \<Rightarrow> Inl e
      | None \<Rightarrow>
          (case chunks_of text k of
             Inl e \<Rightarrow> Inl e
           | Inr chunks \<Rightarrow>
               (case summarizer E chunks of
                  Inl e \<Rightarrow> Inl e
                | Inr summaries \<Rightarrow> Inr (format_summary (py_join [32] summaries)))))"
  by (simp add: summarize_text_def Let_def split: sum.splits option.splits)

section \<open>The orchestrator: effects of each step\<close>

lemma youtube_world:
  assumes "get_transcript_youtube E url w = (Inr r, w1)"
  shows "\<exists>vid. get_video_id E url = Inr (Some vid) \<and> vid \<noteq> [] \<and> calls w1 = calls w @ [ApiGetTranscript vid]"
    and "files w1 = files w" and "status w1 = status w"
  using assms
  by (auto simp: get_transcript_youtube_def report_unavailable_def log_call_def Let_def
      split: sum.splits option.splits if_splits)

lemma youtube_error_world:
  "get_transcript_youtube E url w = (Inl e, w1) \<Longrightarrow> status w1 = status w \<and> files w1 = files w"
  by (auto simp: get_transcript_youtube_def report_unavailable_def log_call_def Let_def
      split: sum.splits option.splits if_splits)

lemma download_world:
  "download_audio E url w = (r, w2) \<Longrightarrow>
     status w2 = status w \<and> calls w2 = calls w @ [YdlDownload url]
     \<and> files w2 = snd (ydl_download E url (files w))
     \<and> r = (case fst (ydl_download E url (files w)) of Some e \<Rightarrow> Inl e | None \<Rightarrow> Inr audio_mp3)"
  by (auto simp: download_audio_def log_call_def Let_def split: prod.splits option.splits)

lemma whisper_world:
  "get_transcript_whisper E p w = (r, w3) \<Longrightarrow>
     status w3 = status w \<and> calls w3 = calls w @ [WhisperTranscribe p] \<and> files w3 = files w
     \<and> r = whisper_transcribe E p (files w)"
  by (auto simp: get_transcript_whisper_def log_call_def Let_def)

lemma remove_world:
  "os_remove p w = (r, w4) \<Longrightarrow>
     status w4 = status w \<and> calls w4 = calls w
     \<and> (case r of Inr _ \<Rightarrow> p \<in> files w \<and> files w4 = files w - {p} | Inl e \<Rightarrow> p \<notin> files w \<and> w4 = w)"
  by (auto simp: os_remove_def split: if_splits)

lemma fallback_status:
  assumes "local_fallback E url w = (r, w')"
  shows "status w' = status w @ (case r of Inr _ \<Rightarrow> [msg_unavailable, msg_whisper_ok] | Inl _ \<Rightarrow> [msg_unavailable])"
  using assms
  by (auto simp: local_fallback_def Let_def update_status_def
      split: prod.splits sum.splits
      dest!: download_world whisper_world remove_world)


lemma fallback_success_removes:
  assumes "local_fallback E url w = (Inr t, w')"
  shows "audio_mp3 \<notin> files w'"
  using assms
  by (auto simp: local_fallback_def Let_def update_status_def
      split: prod.splits sum.splits option.splits
      dest!: download_world whisper_world remove_world)

section \<open>The sample world, evaluated\<close>

lemma sample_netlocs:
  "sublist (cp ''youtu.be'') (cp ''youtu.be'')"
  "\<not> sublist (cp ''youtu.be'') (cp ''www.youtube.com'')"
  "sublist (cp ''youtube.com'') (cp ''www.youtube.com'')"
  "\<not> sublist (cp ''youtu.be'') (cp ''example.org'')"
  "\<not> sublist (cp ''youtube.com'') (cp ''example.org'')"
  by (simp_all add: cp_def sublist_Cons_right)

lemma sample_urls_distinct:
  "url_long \<noteq> url_short" "url_other \<noteq> url_short" "url_other \<noteq> url_long"
  "url_foreign \<noteq> url_short" "url_foreign \<noteq> url_long" "url_foreign \<noteq> url_other"
  "url_upper \<noteq> url_short" "url_upper \<noteq> url_long" "url_upper \<noteq> url_other"
  "url_upper \<noteq> url_foreign"
  "url_both \<noteq> url_short" "url_both \<noteq> url_long" "url_both \<noteq> url_other"
  "url_both \<noteq> url_foreign" "url_both \<noteq> url_upper"
  by (simp_all add: url_long_def url_short_def url_other_def url_foreign_def url_upper_def
      url_both_def cp_def)

lemma sample_strings:
  "cp ''abc'' \<noteq> []" "cp ''xyz'' \<noteq> []" "cp ''xyz'' \<noteq> cp ''abc''"
  "drop 1 (cp ''/abc'') = cp ''abc''" "cp ''/abc'' = 47 # cp ''abc''" "cp ''v'' \<noteq> cp ''x''"
  by (simp_all add: cp_def)

lemma sample_parsed:
  "urlparse sample_env url_short = Inr \<lparr>netloc = cp ''youtu.be'', path = cp ''/abc'', query = []\<rparr>"
  "urlparse sample_env url_long =
     Inr \<lparr>netloc = cp ''www.youtube.com'', path = cp ''/watch'', query = cp ''v=xyz&x=1''\<rparr>"
  "urlparse sample_env url_other = Inr \<lparr>netloc = cp ''example.org'', path = cp ''/abc'', query = []\<rparr>"
  "parse_qs sample_env (cp ''v=xyz&x=1'') (cp ''v'') = Some [cp ''xyz'']"
  "urlparse sample_env url_foreign =
     Inr \<lparr>netloc = cp ''notyoutube.com'', path = cp ''/watch'', query = cp ''v=xyz&x=1''\<rparr>"
  "urlparse sample_env url_upper = Inr \<lparr>netloc = cp ''YOUTU.BE'', path = cp ''/abc'', query = []\<rparr>"
  "urlparse sample_env url_both =
     Inr \<lparr>netloc = cp ''youtu.be.youtube.com'', path = cp ''/watch'', query = cp ''v=xyz&x=1''\<rparr>"
  by (simp_all add: sample_env_def sample_urlparse_def sample_parse_qs_def sample_urls_distinct
      sample_strings)

lemma sample_video_ids:
  "get_video_id sample_env url_short = Inr (Some (cp ''abc''))"
  "get_video_id sample_env url_long = Inr (Some (cp ''xyz''))"
  "get_video_id sample_env url_other = Inr None"
  by (simp_all add: get_video_id_def sample_parsed sample_netlocs sample_strings)

lemma other_env_video_ids:
  "get_video_id whisper_fails_env url = get_video_id sample_env url"
  "get_video_id empty_captions_env url = get_video_id sample_env url"
  "get_video_id print_fails_env url = get_video_id sample_env url"
  by (simp_all add: get_video_id_def whisper_fails_env_def empty_captions_env_def
      print_fails_env_def split: sum.splits)

lemma sample_api:
  "api_get_transcript sample_env (cp ''abc'') = Inr sample_segments"
  "api_get_transcript sample_env (cp ''xyz'') = Inl (LibraryError 0)"
  "api_get_transcript whisper_fails_env (cp ''xyz'') = Inl (LibraryError 0)"
  "api_get_transcript empty_captions_env (cp ''abc'') = Inr []"
  "api_get_transcript print_fails_env (cp ''xyz'') = Inl (LibraryError 0)"
  by (simp_all add: sample_env_def whisper_fails_env_def empty_captions_env_def
      print_fails_env_def sample_strings)

lemma sample_print:
  "print_error sample_env e = None"
  "print_error whisper_fails_env e = None"
  "print_error empty_captions_env e = None"
  "print_error print_fails_env e = Some UnicodeEncodeError"
  by (simp_all add: sample_env_def whisper_fails_env_def empty_captions_env_def
      print_fails_env_def)

lemma sample_join: "join_texts sample_segments = Inr (cp ''Hello world'')" "join_texts [] = Inr []"
  by (simp_all add: join_texts_def sample_segments_def cp_def)

lemma sample_youtube:
  "get_transcript_youtube sample_env url_short w0 =
     (Inr (Some (cp ''Hello world'')), w0\<lparr>calls := [ApiGetTranscript (cp ''abc'')]\<rparr>)"
  "get_transcript_youtube sample_env url_long w0 =
     (Inr None, w0\<lparr>printed := [LibraryError 0], calls := [ApiGetTranscript (cp ''xyz'')]\<rparr>)"
  "get_transcript_youtube sample_env url_other w0 = (Inl invalid_url, w0)"
  "get_transcript_youtube whisper_fails_env url_long w0 =
     (Inr None, w0\<lparr>printed := [LibraryError 0], calls := [ApiGetTranscript (cp ''xyz'')]\<rparr>)"
  "get_transcript_youtube empty_captions_env url_short w0 =
     (Inr (Some []), w0\<lparr>calls := [ApiGetTranscript (cp ''abc'')]\<rparr>)"
  by (simp_all add: get_transcript_youtube_def report_unavailable_def sample_video_ids
      other_env_video_ids sample_strings sample_api sample_print sample_join log_call_def w0_def)

lemma sample_fallback_ok:
  "local_fallback sample_env url (w0\<lparr>printed := p, calls := c\<rparr>) =
     (Inr (cp ''spoken words''),
      w0\<lparr>status := [msg_unavailable, msg_whisper_ok], printed := p,
         calls := c @ [YdlDownload url, WhisperTranscribe audio_mp3]\<rparr>)"
  by (simp add: local_fallback_def download_audio_def get_transcript_whisper_def os_remove_def
      update_status_def log_call_def w0_def sample_env_def Let_def)

lemma sample_fallback_empty:
  "local_fallback empty_captions_env url (w0\<lparr>calls := c\<rparr>) =
     (Inr (cp ''spoken words''),
      w0\<lparr>status := [msg_unavailable, msg_whisper_ok],
         calls := c @ [YdlDownload url, WhisperTranscribe audio_mp3]\<rparr>)"
  by (simp add: local_fallback_def download_audio_def get_transcript_whisper_def os_remove_def
      update_status_def log_call_def w0_def sample_env_def empty_captions_env_def Let_def)

lemma sample_fallback_fails:
  "local_fallback whisper_fails_env url (w0\<lparr>printed := p, calls := c\<rparr>) =
     (Inl (LibraryError 1),
      w0\<lparr>files := {audio_mp3}, status := [msg_unavailable], printed := p,
         calls := c @ [YdlDownload url, WhisperTranscribe audio_mp3]\<rparr>)"
  by (simp add: local_fallback_def download_audio_def get_transcript_whisper_def os_remove_def
      update_status_def log_call_def w0_def sample_env_def whisper_fails_env_def Let_def)

section \<open>Hosts and domains\<close>

lemma on_domain_sublist:
  "on_domain d host \<Longrightarrow> map ascii_lower host = host \<Longrightarrow> sublist d host"
proof -
  assume "on_domain d host" and "map ascii_lower host = host"
  then consider "host = d" | "suffix (46 # d) host" by (auto simp: on_domain_def)
  then show ?thesis
  proof cases
    case 1
    then show ?thesis by simp
  next
    case 2
    then obtain ps where "host = ps @ 46 # d" by (auto simp: suffix_def)
    then have "host = (ps @ [46]) @ d" by simp
    then show ?thesis by (metis sublist_append_leftI)
  qed
qed

lemma more_netlocs:
  "sublist (cp ''youtube.com'') (cp ''notyoutube.com'')"
  "\<not> sublist (cp ''youtu.be'') (cp ''notyoutube.com'')"
  "\<not> on_domain (cp ''youtube.com'') (cp ''notyoutube.com'')"
  "\<not> on_domain (cp ''youtu.be'') (cp ''notyoutube.com'')"
  "\<not> sublist (cp ''youtu.be'') (cp ''YOUTU.BE'')"
  "\<not> sublist (cp ''youtube.com'') (cp ''YOUTU.BE'')"
  "sublist (cp ''youtu.be'') (cp ''youtu.be.youtube.com'')"
  "on_domain (cp ''youtube.com'') (cp ''youtu.be.youtube.com'')"
  "on_domain (cp ''youtu.be'') (cp ''youtu.be'')"
  "on_domain (cp ''youtube.com'') (cp ''www.youtube.com'')"
  "on_domain (cp ''youtu.be'') (cp ''YOUTU.BE'')"
  "map ascii_lower (cp ''youtu.be'') = cp ''youtu.be''"
  "map ascii_lower (cp ''www.youtube.com'') = cp ''www.youtube.com''"
  by (simp_all add: cp_def sublist_Cons_right on_domain_def suffix_Cons ascii_lower_def)

lemma more_strings:
  "cp ''/watch'' = 47 # cp ''watch''" "cp ''watch'' \<noteq> cp ''xyz''" "cp ''watch'' \<noteq> []"
  by (simp_all add: cp_def)

section \<open>The remote fetcher and the orchestrator: unfolding\<close>




lemma get_transcript_unfold:
  assumes "get_transcript_youtube E url w = (y, w1)"
  shows "get_transcript E url w =
     (case y of
        Inl e \<Rightarrow> (Inl e, w1)
      | Inr None \<Rightarrow> local_fallback E url w1
      | Inr (Some t) \<Rightarrow> if t = [] then local_fallback E url w1 else (Inr t, update_status msg_youtube_ok w1))"
  using assms by (simp add: get_transcript_def split: sum.splits option.splits)

section \<open>The temporary audio file\<close>

text \<open>
  Claim C1. The claim is that the temporary audio file is gone after every call that takes
  the local path, also when the download or the transcription raises. \<open>get_transcript\<close>
  removes the file after a transcription that returned (\<open>fallback_success_removes\<close>) and
  has no handler around the transcription: in the sample world whose transcriber raises,
  the call on the video without captions raises that exception, and the file, absent
  before the call, is on disk after it.
\<close>

theorem C1_audio_file_left_behind:
  "fst (get_transcript whisper_fails_env url_long w0) = Inl (LibraryError 1)
   \<and> audio_mp3 \<notin> files w0
   \<and> audio_mp3 \<in> files (snd (get_transcript whisper_fails_env url_long w0))"
  by (simp add: get_transcript_unfold [OF sample_youtube(4)] sample_fallback_fails)
     (simp add: w0_def)

section \<open>The remote path\<close>

text \<open>
  Claim C2, as amended. When the remote fetcher returns a transcript that is not the empty
  string, \<open>get_transcript\<close> returns exactly that text; the only collaborator called is
  the transcript service (no download, no transcription), no file is touched, and the one
  status message is the remote one.
\<close>

theorem C2_remote_text_returned:
  assumes "get_transcript_youtube E url w = (Inr (Some t), w1)" and "t \<noteq> []"
  shows "fst (get_transcript E url w) = Inr t
       \<and> (\<exists>vid. calls (snd (get_transcript E url w)) = calls w @ [ApiGetTranscript vid])
       \<and> files (snd (get_transcript E url w)) = files w
       \<and> status (snd (get_transcript E url w)) = status w @ [msg_youtube_ok]"
proof -
  have g: "get_transcript E url w = (Inr t, update_status msg_youtube_ok w1)"
    using get_transcript_unfold [OF assms(1)] assms(2) by simp
  obtain vid where "calls w1 = calls w @ [ApiGetTranscript vid]"
    using youtube_world(1) [OF assms(1)] by blast
  then show ?thesis
    using g youtube_world(2,3) [OF assms(1)] by (simp add: update_status_def)
qed

theorem C2_remote_text_returned_witness:
  "fst (get_transcript sample_env url_short w0) = Inr (cp ''Hello world'')
   \<and> calls (snd (get_transcript sample_env url_short w0)) = [ApiGetTranscript (cp ''abc'')]
   \<and> files (snd (get_transcript sample_env url_short w0)) = {}
   \<and> status (snd (get_transcript sample_env url_short w0)) = [msg_youtube_ok]"
proof -
  have ne: "cp ''Hello world'' \<noteq> []" by (simp add: cp_def)
  have c: "calls (snd (get_transcript sample_env url_short w0)) = [ApiGetTranscript (cp ''abc'')]"
    by (simp add: get_transcript_unfold [OF sample_youtube(1)] ne update_status_def)
  show ?thesis
    using C2_remote_text_returned [OF sample_youtube(1) ne] c by (simp add: w0_def)
qed

text \<open>
  Claim C2 as stated fails when the text the fetcher returns is empty: with a transcript
  service that answers with no segment, the fetcher returns the empty string, and the
  orchestrator downloads the audio, transcribes it and returns the local transcript.
\<close>

theorem C2_empty_text_counterexample:
  "fst (get_transcript_youtube empty_captions_env url_short w0) = Inr (Some [])
   \<and> fst (get_transcript empty_captions_env url_short w0) = Inr (cp ''spoken words'')
   \<and> cp ''spoken words'' \<noteq> []
   \<and> calls (snd (get_transcript empty_captions_env url_short w0)) =
       [ApiGetTranscript (cp ''abc''), YdlDownload url_short, WhisperTranscribe audio_mp3]"
  by (simp add: get_transcript_unfold [OF sample_youtube(5)] sample_youtube(5) sample_fallback_empty)
     (simp add: cp_def)

section \<open>The summarizer: shape of the output\<close>

text \<open>
  Claim C3, as amended. Whenever the pipeline is built and the chunking and the model call
  succeed, \<open>summarize_text\<close> returns the heading (U+1F539, \<open>Key Points:\<close>) and a
  newline, followed, for each kept line in the order of the sections and with nothing
  reordered or merged, by the marker U+2022, a space, the line without its outer periods,
  one period and a newline. A line is kept when, trimmed, it is not empty and has more than
  seven words; the count is taken before the outer periods are removed, so the text printed
  after the marker has at least seven words, and more than seven when the line does not
  begin with a period. When no line is kept the result is the heading alone, returned
  normally. When no kept line contains a newline, the lines of the output are exactly
  the heading, then one line per bullet, then the empty piece after the last newline.
\<close>

theorem C3_summary_shape:
  assumes "load_pipeline E = None"
    and "chunks_of text max_chunk = Inr chunks"
    and "summarizer E chunks = Inr summaries"
  shows "let kept = filter (\<lambda>l. l \<noteq> [] \<and> 7 < length (py_split l))
                      (map py_strip (re_split_sentences (py_join [32] summaries)));
             heading = [128313] @ cp '' Key Points:'';
             bullets = map (\<lambda>l. [8226, 32] @ strip_dots l @ [46]) kept
         in fst (summarize_text E text max_chunk w) =
              Inr (heading @ [10] @ concat (map (\<lambda>b. b @ [10]) bullets))
          \<and> (kept = [] \<longrightarrow> fst (summarize_text E text max_chunk w) = Inr (heading @ [10]))
          \<and> (\<forall>l\<in>set kept. 7 < length (py_split l)
                \<and> 7 \<le> length (py_split (strip_dots l @ [46]))
                \<and> (hd l \<noteq> 46 \<longrightarrow> 7 < length (py_split (strip_dots l @ [46]))))
          \<and> (\<forall>l\<in>set kept. \<exists>a b. l = a @ strip_dots l @ b \<and> set a \<subseteq> {46} \<and> set b \<subseteq> {46}
                \<and> (strip_dots l = [] \<or> hd (strip_dots l) \<noteq> 46 \<and> last (strip_dots l) \<noteq> 46))
          \<and> ((\<forall>l\<in>set kept. 10 \<notin> set l) \<longrightarrow>
                (\<forall>out. fst (summarize_text E text max_chunk w) = Inr out \<longrightarrow>
                   lines_nl out = heading # bullets @ [[]]))"
proof -
  define kept where "kept = filter (\<lambda>l. l \<noteq> [] \<and> 7 < length (py_split l))
                      (map py_strip (re_split_sentences (py_join [32] summaries)))"
  define heading :: pystr where "heading = [128313] @ cp '' Key Points:''"
  define bullets where "bullets = map (\<lambda>l. [8226, 32] @ strip_dots l @ [46]) kept"
  have out: "fst (summarize_text E text max_chunk w) =
      Inr (heading @ [10] @ concat (map (\<lambda>b. b @ [10]) bullets))"
    using assms
    by (simp add: summarize_result format_summary_literal kept_def heading_def bullets_def)
  have empty: "kept = [] \<longrightarrow> fst (summarize_text E text max_chunk w) = Inr (heading @ [10])"
    using out by (simp add: bullets_def)
  have words: "7 < length (py_split l)
                \<and> 7 \<le> length (py_split (strip_dots l @ [46]))
                \<and> (hd l \<noteq> 46 \<longrightarrow> 7 < length (py_split (strip_dots l @ [46])))"
    if "l \<in> set kept" for l
  proof -
    have a: "l \<noteq> []" and b: "7 < length (py_split l)" using that by (simp_all add: kept_def)
    have c: "7 \<le> length (py_split (strip_dots l @ [46]))"
      using b words_strip_dots [of l] by linarith
    have d: "7 < length (py_split (strip_dots l @ [46]))" if "hd l \<noteq> 46"
      using b words_strip_dots_no_leading [OF a that] by linarith
    show ?thesis using b c d by blast
  qed
  have lines: "lines_nl out = heading # bullets @ [[]]"
    if nl: "\<forall>l\<in>set kept. 10 \<notin> set l"
      and o: "fst (summarize_text E text max_chunk w) = Inr out" for out
  proof -
    have "\<forall>b\<in>set bullets. 10 \<notin> set b"
      using nl strip_dots_subset by (fastforce simp: bullets_def)
    then have "lines_nl (concat (map (\<lambda>b. b @ [10]) bullets)) = bullets @ [[]]"
      by (rule lines_nl_concat)
    moreover have "10 \<notin> set heading" using heading_no_newline by (simp add: heading_def)
    ultimately have "lines_nl (heading @ 10 # concat (map (\<lambda>b. b @ [10]) bullets)) = heading # bullets @ [[]]"
      by (simp add: lines_nl_line)
    then show ?thesis using o out by simp
  qed
  have "fst (summarize_text E text max_chunk w) =
              Inr (heading @ [10] @ concat (map (\<lambda>b. b @ [10]) bullets))
          \<and> (kept = [] \<longrightarrow> fst (summarize_text E text max_chunk w) = Inr (heading @ [10]))
          \<and> (\<forall>l\<in>set kept. 7 < length (py_split l)
                \<and> 7 \<le> length (py_split (strip_dots l @ [46]))
                \<and> (hd l \<noteq> 46 \<longrightarrow> 7 < length (py_split (strip_dots l @ [46]))))
          \<and> (\<forall>l\<in>set kept. \<exists>a b. l = a @ strip_dots l @ b \<and> set a \<subseteq> {46} \<and> set b \<subseteq> {46}
                \<and> (strip_dots l = [] \<or> hd (strip_dots l) \<noteq> 46 \<and> last (strip_dots l) \<noteq> 46))
          \<and> ((\<forall>l\<in>set kept. 10 \<notin> set l) \<longrightarrow>
                (\<forall>out. fst (summarize_text E text max_chunk w) = Inr out \<longrightarrow>
                   lines_nl out = heading # bullets @ [[]]))"
    using out empty words lines strip_dots_shape by blast
  then show ?thesis
    unfolding kept_def heading_def bullets_def Let_def .
qed

theorem C3_summary_shape_witness:
  "fst (summarize_text sample_env (cp ''Too short. One two three four five six seven eight. Two. Nine eight seven six five four three two one'') 1000 w0) =
     Inr ([128313] @ cp '' Key Points:'' @ [10]
          @ [8226, 32] @ cp ''One two three four five six seven eight.'' @ [10]
          @ [8226, 32] @ cp ''Nine eight seven six five four three two one.'' @ [10])"
proof -
  let ?t = "cp ''Too short. One two three four five six seven eight. Two. Nine eight seven six five four three two one''"
  have c: "chunks_of ?t 1000 = Inr [?t]"
    by (simp add: chunks_of_def py_range0_def cp_def)
  have s: "summarizer sample_env [?t] = Inr [?t]"
    by (simp add: sample_env_def)
  have p: "load_pipeline sample_env = None"
    by (simp add: sample_env_def)
  have k: "filter (\<lambda>l. l \<noteq> [] \<and> 7 < length (py_split l)) (map py_strip (re_split_sentences (py_join [32] [?t]))) =
      [cp ''One two three four five six seven eight'', cp ''Nine eight seven six five four three two one'']"
    by (simp add: cp_def py_strip_def strip_where_def py_isspace_def py_split_def)
  have d: "strip_dots (cp ''One two three four five six seven eight'') = cp ''One two three four five six seven eight''"
    "strip_dots (cp ''Nine eight seven six five four three two one'') = cp ''Nine eight seven six five four three two one''"
    by (simp_all add: strip_dots_def strip_where_def cp_def)
  have "fst (summarize_text sample_env ?t 1000 w0) =
      Inr (([128313] @ cp '' Key Points:'') @ [10] @ concat (map (\<lambda>b. b @ [10])
        (map (\<lambda>l. [8226, 32] @ strip_dots l @ [46])
          (filter (\<lambda>l. l \<noteq> [] \<and> 7 < length (py_split l)) (map py_strip (re_split_sentences (py_join [32] [?t])))))))"
    using C3_summary_shape [OF p c s, of w0] unfolding Let_def by (rule conjunct1)
  then have "fst (summarize_text sample_env ?t 1000 w0) =
      Inr (([128313] @ cp '' Key Points:'') @ [10] @ concat (map (\<lambda>b. b @ [10])
        (map (\<lambda>l. [8226, 32] @ strip_dots l @ [46])
          [cp ''One two three four five six seven eight'', cp ''Nine eight seven six five four three two one''])))"
    by (simp only: k)
  then show ?thesis by (simp add: d) (simp add: cp_def)
qed

text \<open>
  Claim C3 as stated fails on a line that begins with a token of periods: the line
  \<open>... we went to the big store today\<close> has eight words and passes the filter, the
  periods are stripped, and the bullet printed carries seven words.
\<close>

theorem C3_seven_word_bullet_counterexample:
  "fst (summarize_text sample_env (cp ''... we went to the big store today'') 1000 w0) =
     Inr ([128313] @ cp '' Key Points:'' @ [10]
          @ [8226, 32] @ cp '' we went to the big store today.'' @ [10])
   \<and> length (py_split (cp '' we went to the big store today.'')) = 7
   \<and> length (py_split (cp ''... we went to the big store today'')) = 8"
proof -
  let ?t = "cp ''... we went to the big store today''"
  have c: "chunks_of ?t 1000 = Inr [?t]"
    by (simp add: chunks_of_def py_range0_def cp_def)
  have s: "summarizer sample_env [?t] = Inr [?t]" "load_pipeline sample_env = None"
    by (simp_all add: sample_env_def)
  have f: "format_summary ?t = [128313] @ cp '' Key Points:'' @ [10]
          @ [8226, 32] @ cp '' we went to the big store today.'' @ [10]"
    by (simp add: format_summary_def cp_def heading_line_def format_step_def py_strip_def
        strip_where_def py_isspace_def py_split_def bullet_line_def strip_dots_def)
  have r: "fst (summarize_text sample_env ?t 1000 w0) = Inr (format_summary ?t)"
    by (simp add: summarize_result c s)
  have w: "length (py_split (cp '' we went to the big store today.'')) = 7"
    "length (py_split (cp ''... we went to the big store today'')) = 8"
    by (simp_all add: py_split_def py_isspace_def cp_def)
  show ?thesis using r f w by simp
qed

text \<open>
  Claim C4. On the sample output of the model the sections are the three sentences, only
  the middle one survives the word filter, and the result is the heading followed by its
  bullet.
\<close>

theorem C4_example:
  "format_summary (cp ''Short bit. This is a sufficiently long sentence for inclusion here. Another tiny one.'')
     = heading_line @ [8226, 32] @ cp ''This is a sufficiently long sentence for inclusion here.'' @ [10]
   \<and> re_split_sentences (cp ''Short bit. This is a sufficiently long sentence for inclusion here. Another tiny one.'')
     = [cp ''Short bit'', cp ''This is a sufficiently long sentence for inclusion here'', cp ''Another tiny one.'']
   \<and> surviving_lines (cp ''Short bit. This is a sufficiently long sentence for inclusion here. Another tiny one.'')
     = [cp ''This is a sufficiently long sentence for inclusion here'']"
  by (simp add: format_summary_def surviving_lines_def cp_def heading_line_def format_step_def py_strip_def
      strip_where_def py_isspace_def py_split_def bullet_line_def strip_dots_def)

section \<open>The URL parser\<close>

text \<open>
  Claim C5, as amended. The program recognises the two shapes by a case-sensitive search
  of the network location for the strings \<open>youtu.be\<close> and then \<open>youtube.com\<close>.
  When the network location contains \<open>youtu.be\<close>, in particular for every host on the
  short domain written in lower case, \<open>get_video_id\<close> returns the path without its first
  character, the identifier after the leading slash. Otherwise, when it contains
  \<open>youtube.com\<close>, in particular for every host on the long domain written in lower
  case that does not contain the short name, it returns the first value of the \<open>v\<close>
  parameter. When it contains neither string, or only the second and there is no
  \<open>v\<close>, \<open>get_transcript_youtube\<close> raises \<open>ValueError\<close> with the message
  \<open>Invalid YouTube URL\<close> before any call to the transcript service. An exception of
  \<open>urlparse\<close> reaches the caller as it is.
\<close>

theorem C5_parse:
  "(\<forall>e. urlparse E url = Inl e \<longrightarrow> get_transcript_youtube E url w = (Inl e, w))
   \<and> (\<forall>p. urlparse E url = Inr p \<longrightarrow>
        (sublist (cp ''youtu.be'') (netloc p) \<longrightarrow>
            get_video_id E url = Inr (Some (drop 1 (path p)))
          \<and> (\<forall>ident. path p = 47 # ident \<longrightarrow> get_video_id E url = Inr (Some ident)))
      \<and> (\<not> sublist (cp ''youtu.be'') (netloc p) \<and> sublist (cp ''youtube.com'') (netloc p) \<longrightarrow>
            (\<forall>v vs. parse_qs E (query p) (cp ''v'') = Some (v # vs) \<longrightarrow> get_video_id E url = Inr (Some v)))
      \<and> (\<not> sublist (cp ''youtu.be'') (netloc p)
            \<and> (\<not> sublist (cp ''youtube.com'') (netloc p) \<or> parse_qs E (query p) (cp ''v'') = None) \<longrightarrow>
            get_video_id E url = Inr None \<and> get_transcript_youtube E url w = (Inl invalid_url, w))
      \<and> (on_domain (cp ''youtu.be'') (netloc p) \<and> map ascii_lower (netloc p) = netloc p \<longrightarrow>
            (\<forall>ident. path p = 47 # ident \<longrightarrow> get_video_id E url = Inr (Some ident)))
      \<and> (on_domain (cp ''youtube.com'') (netloc p) \<and> map ascii_lower (netloc p) = netloc p
            \<and> \<not> sublist (cp ''youtu.be'') (netloc p) \<longrightarrow>
            (\<forall>v vs. parse_qs E (query p) (cp ''v'') = Some (v # vs) \<longrightarrow> get_video_id E url = Inr (Some v))
          \<and> (parse_qs E (query p) (cp ''v'') = None \<longrightarrow>
                get_transcript_youtube E url w = (Inl invalid_url, w))))
   \<and> invalid_url = ValueError (cp ''Invalid YouTube URL'')"
proof -
  have err: "get_transcript_youtube E url w = (Inl e, w)" if "urlparse E url = Inl e" for e
    using that by (simp add: get_video_id_def get_transcript_youtube_def)
  have code: "(sublist (cp ''youtu.be'') (netloc p) \<longrightarrow>
            get_video_id E url = Inr (Some (drop 1 (path p)))
          \<and> (\<forall>ident. path p = 47 # ident \<longrightarrow> get_video_id E url = Inr (Some ident)))
      \<and> (\<not> sublist (cp ''youtu.be'') (netloc p) \<and> sublist (cp ''youtube.com'') (netloc p) \<longrightarrow>
            (\<forall>v vs. parse_qs E (query p) (cp ''v'') = Some (v # vs) \<longrightarrow> get_video_id E url = Inr (Some v)))
      \<and> (\<not> sublist (cp ''youtu.be'') (netloc p)
            \<and> (\<not> sublist (cp ''youtube.com'') (netloc p) \<or> parse_qs E (query p) (cp ''v'') = None) \<longrightarrow>
            get_video_id E url = Inr None \<and> get_transcript_youtube E url w = (Inl invalid_url, w))"
    if "urlparse E url = Inr p" for p
    using that by (auto simp: get_video_id_def get_transcript_youtube_def)
  have dom: "(on_domain (cp ''youtu.be'') (netloc p) \<and> map ascii_lower (netloc p) = netloc p \<longrightarrow>
            (\<forall>ident. path p = 47 # ident \<longrightarrow> get_video_id E url = Inr (Some ident)))
      \<and> (on_domain (cp ''youtube.com'') (netloc p) \<and> map ascii_lower (netloc p) = netloc p
            \<and> \<not> sublist (cp ''youtu.be'') (netloc p) \<longrightarrow>
            (\<forall>v vs. parse_qs E (query p) (cp ''v'') = Some (v # vs) \<longrightarrow> get_video_id E url = Inr (Some v))
          \<and> (parse_qs E (query p) (cp ''v'') = None \<longrightarrow>
                get_transcript_youtube E url w = (Inl invalid_url, w)))"
    if "urlparse E url = Inr p" for p
    using code [OF that] on_domain_sublist [of "cp ''youtu.be''" "netloc p"]
      on_domain_sublist [of "cp ''youtube.com''" "netloc p"] by blast
  show ?thesis using err code dom by (simp add: invalid_url_def)
qed

theorem C5_parse_witness:
  "get_video_id sample_env url_short = Inr (Some (cp ''abc''))
   \<and> get_video_id sample_env url_long = Inr (Some (cp ''xyz''))
   \<and> get_transcript_youtube sample_env url_other w0 = (Inl (ValueError (cp ''Invalid YouTube URL'')), w0)"
proof -
  note t = C5_parse [of sample_env _ w0]
  have a: "get_video_id sample_env url_short = Inr (Some (cp ''abc''))"
    using t [of url_short] sample_parsed(1) more_netlocs(9,12) sample_strings(5) by simp
  have b: "get_video_id sample_env url_long = Inr (Some (cp ''xyz''))"
    using t [of url_long] sample_parsed(2) sample_netlocs(2) more_netlocs(10,13) sample_parsed(4) by simp
  have c: "get_transcript_youtube sample_env url_other w0 = (Inl (ValueError (cp ''Invalid YouTube URL'')), w0)"
    using t [of url_other] sample_parsed(3) sample_netlocs(4,5) by simp
  show ?thesis using a b c by simp
qed

text \<open>
  Claim C5 as stated fails on three URLs. The host \<open>notyoutube.com\<close> is on neither
  domain, yet the program takes \<open>xyz\<close> as identifier and calls the transcript service
  instead of raising. The host \<open>youtu.be.youtube.com\<close> is a subdomain of the long
  domain and the URL has \<open>v=xyz\<close>, yet the program returns \<open>watch\<close>, from the
  path. The host \<open>YOUTU.BE\<close> is the short domain in capitals, yet the program raises
  the invalid-URL error.
\<close>

theorem C5_substring_counterexample:
  "urlparse sample_env url_foreign =
      Inr \<lparr>netloc = cp ''notyoutube.com'', path = cp ''/watch'', query = cp ''v=xyz&x=1''\<rparr>
   \<and> \<not> on_domain (cp ''youtu.be'') (cp ''notyoutube.com'')
   \<and> \<not> on_domain (cp ''youtube.com'') (cp ''notyoutube.com'')
   \<and> get_video_id sample_env url_foreign = Inr (Some (cp ''xyz''))
   \<and> fst (get_transcript_youtube sample_env url_foreign w0) = Inr None
   \<and> calls (snd (get_transcript_youtube sample_env url_foreign w0)) = [ApiGetTranscript (cp ''xyz'')]
   \<and> urlparse sample_env url_both =
      Inr \<lparr>netloc = cp ''youtu.be.youtube.com'', path = cp ''/watch'', query = cp ''v=xyz&x=1''\<rparr>
   \<and> on_domain (cp ''youtube.com'') (cp ''youtu.be.youtube.com'')
   \<and> parse_qs sample_env (cp ''v=xyz&x=1'') (cp ''v'') = Some [cp ''xyz'']
   \<and> get_video_id sample_env url_both = Inr (Some (cp ''watch''))
   \<and> cp ''watch'' \<noteq> cp ''xyz''
   \<and> urlparse sample_env url_upper = Inr \<lparr>netloc = cp ''YOUTU.BE'', path = cp ''/abc'', query = []\<rparr>
   \<and> on_domain (cp ''youtu.be'') (cp ''YOUTU.BE'')
   \<and> get_transcript_youtube sample_env url_upper w0 = (Inl (ValueError (cp ''Invalid YouTube URL'')), w0)"
proof -
  have v1: "get_video_id sample_env url_foreign = Inr (Some (cp ''xyz''))"
    by (simp add: get_video_id_def sample_parsed more_netlocs)
  have v2: "get_video_id sample_env url_both = Inr (Some (cp ''watch''))"
    by (simp add: get_video_id_def sample_parsed more_netlocs more_strings)
  have y: "get_transcript_youtube sample_env url_foreign w0 =
      (Inr None, w0\<lparr>printed := [LibraryError 0], calls := [ApiGetTranscript (cp ''xyz'')]\<rparr>)"
    by (simp add: get_transcript_youtube_def report_unavailable_def v1 sample_strings sample_api
        sample_print log_call_def w0_def)
  have v3: "get_video_id sample_env url_upper = Inr None"
    by (simp add: get_video_id_def sample_parsed more_netlocs)
  have u: "get_transcript_youtube sample_env url_upper w0 = (Inl (ValueError (cp ''Invalid YouTube URL'')), w0)"
    by (simp add: get_transcript_youtube_def v3 invalid_url_def)
  show ?thesis
    using v1 v2 y u sample_parsed(4,5,6,7) more_netlocs(3,4,8,11) more_strings(2) by simp
qed

section \<open>The remote fetcher\<close>




section \<open>The summarizer: chunks and the model call\<close>

text \<open>
  Claim C7. With the default chunk length 1000, the chunks are contiguous pieces of the
  text: their concatenation is the text, none is empty or longer than 1000 characters, all
  but the last have exactly 1000. Once the pipeline is built, \<open>summarize_text\<close> hands
  them to the summarizer in exactly one call. For a text shorter than 1000 characters that
  call receives the text as its only chunk (and no chunk at all when the text is empty).
\<close>

theorem C7_chunks:
  "\<exists>chunks. chunks_of text 1000 = Inr chunks
     \<and> concat chunks = text
     \<and> (\<forall>c\<in>set chunks. c \<noteq> [] \<and> length c \<le> 1000)
     \<and> (\<forall>i. Suc i < length chunks \<longrightarrow> length (chunks ! i) = 1000)
     \<and> (load_pipeline E = None \<longrightarrow>
          calls (snd (summarize_text E text 1000 w)) = calls w @ [Summarizer chunks])
     \<and> (length text < 1000 \<longrightarrow> chunks = (if text = [] then [] else [text]))"
proof -
  have k: "(0::nat) < 1000" by simp
  obtain chunks where c: "chunks_of text (int 1000) = Inr chunks"
    using chunks_of_pos [OF k] by simp
  have c': "chunks_of text 1000 = Inr chunks" using c by simp
  have f1: "concat chunks = text" using chunks_concat [OF k c] .
  have f2: "\<forall>c\<in>set chunks. c \<noteq> [] \<and> length c \<le> 1000" using chunks_sizes [OF k c] .
  have f3: "\<forall>i. Suc i < length chunks \<longrightarrow> length (chunks ! i) = 1000"
    using chunks_full [OF k c] by blast
  have f4: "load_pipeline E = None \<longrightarrow>
      calls (snd (summarize_text E text 1000 w)) = calls w @ [Summarizer chunks]"
    using summarize_calls [OF _ c'] by blast
  have f5: "length text < 1000 \<longrightarrow> chunks = (if text = [] then [] else [text])"
  proof
    assume "length text < 1000"
    then have "chunks_of text (int 1000) = Inr (if text = [] then [] else [text])"
      by (rule chunks_short [OF k])
    then show "chunks = (if text = [] then [] else [text])" using c by simp
  qed
  show ?thesis
    by (intro exI [of _ chunks] conjI) (rule c' f1 f2 f3 f4 f5)+
qed

theorem C7_chunks_witness:
  "chunks_of (cp ''hello'') 1000 = Inr [cp ''hello'']
   \<and> calls (snd (summarize_text sample_env (cp ''hello'') 1000 w0)) = [Summarizer [cp ''hello'']]"
proof -
  have l: "length (cp ''hello'') < 1000" "cp ''hello'' \<noteq> []" by (simp_all add: cp_def)
  have e: "calls w0 = []" "load_pipeline sample_env = None" by (simp_all add: w0_def sample_env_def)
  from C7_chunks [of "cp ''hello''" sample_env w0] show ?thesis
  proof (elim exE conjE)
    fix chunks
    assume t1: "chunks_of (cp ''hello'') 1000 = Inr chunks"
      and t2: "load_pipeline sample_env = None \<longrightarrow>
         calls (snd (summarize_text sample_env (cp ''hello'') 1000 w0)) = calls w0 @ [Summarizer chunks]"
      and t3: "length (cp ''hello'') < 1000 \<longrightarrow> chunks = (if cp ''hello'' = [] then [] else [cp ''hello''])"
    have "chunks = [cp ''hello'']" using t3 l by simp
    then show ?thesis using t1 t2 e by simp
  qed
qed

text \<open>
  Claim C8. The summarizer of the model is a function of the chunks (decoding without
  sampling), and the result of \<open>summarize_text\<close> depends on the text and on that function
  only: it is the same from any two worlds, and a second call after the first returns what
  the first returned.
\<close>

theorem C8_same_input_same_output:
  "fst (summarize_text E text max_chunk w1) = fst (summarize_text E text max_chunk w2)
   \<and> fst (summarize_text E text max_chunk (snd (summarize_text E text max_chunk w1)))
       = fst (summarize_text E text max_chunk w1)"
  by (simp add: summarize_result)

theorem C8_same_input_same_output_witness:
  "fst (summarize_text sample_env (cp ''hello'') 1000 (snd (summarize_text sample_env (cp ''hello'') 1000 w0)))
     = Inr heading_line"
proof -
  have "fst (summarize_text sample_env (cp ''hello'') 1000 w0) = Inr heading_line"
    by (simp add: summarize_result chunks_of_def py_range0_def cp_def sample_env_def format_summary_def
        format_step_def py_strip_def strip_where_def py_isspace_def py_split_def)
  then show ?thesis
    using C8_same_input_same_output [of sample_env "cp ''hello''" 1000 w0 w0] by simp
qed

section \<open>The status events\<close>

text \<open>
  Claim C9. The messages a call of \<open>get_transcript\<close> hands to the callback are, in
  order and with nothing else: the remote message alone when the fetcher returned a
  non-empty transcript; the fallback message followed by the local message when the local
  path returned; the fallback message alone when the local path raised; none when the URL
  was rejected. They are all delivered when the call returns.
\<close>

theorem C9_status_order:
  assumes "get_transcript E url w = (r, w')"
  shows "(\<forall>t. fst (get_transcript_youtube E url w) = Inr (Some t) \<and> t \<noteq> [] \<longrightarrow>
            status w' = status w @ [msg_youtube_ok])
       \<and> (fst (get_transcript_youtube E url w) = Inr None
            \<or> fst (get_transcript_youtube E url w) = Inr (Some []) \<longrightarrow>
            status w' = status w @
              (case r of Inr _ \<Rightarrow> [msg_unavailable, msg_whisper_ok] | Inl _ \<Rightarrow> [msg_unavailable]))
       \<and> (\<forall>e. fst (get_transcript_youtube E url w) = Inl e \<longrightarrow> status w' = status w \<and> r = Inl e)"
proof -
  obtain y w1 where y: "get_transcript_youtube E url w = (y, w1)"
    by (cases "get_transcript_youtube E url w")
  note g = get_transcript_unfold [OF y]
  show ?thesis
  proof (cases y)
    case (Inl e)
    then show ?thesis using g assms y youtube_error_world [of E url w e w1] by simp
  next
    case (Inr r0)
    have s1: "status w1 = status w" using youtube_world(3) [of E url w r0 w1] y Inr by simp
    show ?thesis
    proof (cases "r0 = None \<or> r0 = Some []")
      case True
      then have "local_fallback E url w1 = (r, w')" using g assms Inr by auto
      then show ?thesis using fallback_status [of E url w1 r w'] s1 y Inr True by auto
    next
      case False
      then obtain t where t: "r0 = Some t" "t \<noteq> []" by (cases r0) auto
      then have "w' = update_status msg_youtube_ok w1" using g assms Inr by simp
      then show ?thesis using s1 y Inr t by (simp add: update_status_def)
    qed
  qed
qed

theorem C9_status_order_witness:
  "status (snd (get_transcript sample_env url_short w0)) = [msg_youtube_ok]
   \<and> status (snd (get_transcript sample_env url_long w0)) = [msg_unavailable, msg_whisper_ok]
   \<and> status (snd (get_transcript whisper_fails_env url_long w0)) = [msg_unavailable]"
proof -
  have g1: "get_transcript sample_env url_short w0 =
      (fst (get_transcript sample_env url_short w0), snd (get_transcript sample_env url_short w0))"
    by simp
  have g2: "get_transcript sample_env url_long w0 =
      (fst (get_transcript sample_env url_long w0), snd (get_transcript sample_env url_long w0))"
    by simp
  have g3: "get_transcript whisper_fails_env url_long w0 =
      (fst (get_transcript whisper_fails_env url_long w0), snd (get_transcript whisper_fails_env url_long w0))"
    by simp
  have r2: "fst (get_transcript sample_env url_long w0) = Inr (cp ''spoken words'')"
    by (simp add: get_transcript_unfold [OF sample_youtube(2)] sample_fallback_ok)
  have r3: "fst (get_transcript whisper_fails_env url_long w0) = Inl (LibraryError 1)"
    by (simp add: get_transcript_unfold [OF sample_youtube(4)] sample_fallback_fails)
  have ne: "cp ''Hello world'' \<noteq> []" by (simp add: cp_def)
  have s0: "status w0 = []" by (simp add: w0_def)
  have a: "status (snd (get_transcript sample_env url_short w0)) = [msg_youtube_ok]"
    using C9_status_order [OF g1] sample_youtube(1) ne s0 by simp
  have b: "status (snd (get_transcript sample_env url_long w0)) = [msg_unavailable, msg_whisper_ok]"
    using C9_status_order [OF g2] sample_youtube(2) r2 s0 by simp
  have c: "status (snd (get_transcript whisper_fails_env url_long w0)) = [msg_unavailable]"
    using C9_status_order [OF g3] sample_youtube(4) r3 s0 by simp
  show ?thesis using a b c by simp
qed

section \<open>The empty remote transcript\<close>



end
